theory Spec2Isabelle
  imports Complex_Main "HOL-Library.Word" "HOL-Library.List_Lexorder" "HOL-Library.Char_ord"
begin

section \<open>Data model (models/models.go)\<close>

text \<open>
  The service is built for amd64, so Go's \<open>int\<close> and \<open>int64\<close> are 64-bit two's complement
  values: \<open>+\<close> and \<open>*\<close> wrap, comparisons are signed (\<open><s\<close>). A \<open>time.Duration\<close> is an
  \<open>int64\<close> count of nanoseconds. A \<open>time.Time\<close> is kept as an abstract instant, and a value
  of type \<open>interface{}\<close> as an uninterpreted JSON value. Lengths (\<open>len\<close>) are natural
  numbers: they are bounded by memory and never wrap.
  A \<open>float64\<close> weight is the real number it stands for (a finite \<open>float64\<close>; the weights of
  the service lie between \<open>MinWeight\<close> and \<open>MaxWeight\<close>, and NaN and the infinities are
  left out). Comparisons of such values are the comparisons of the reals. A \<open>float64\<close>
  addition or subtraction is the exact one followed by the rounding to \<open>float64\<close>; this
  rounding is a parameter \<open>rnd\<close> of the load balancer's functions, of which nothing is
  assumed.
\<close>

type_synonym go_int = "64 word"
type_synonym int64 = "64 word"
type_synonym duration = "64 word"
type_synonym time = int

typedecl json_value

record LogMessage =
  ID :: string
  Timestamp :: time
  Level :: string
  Message :: string
  Source :: string
  Metadata :: "string \<rightharpoonup> json_value"

record LogPacket =
  ID :: string
  Messages :: "LogMessage list"
  RetryCount :: go_int

record Analyzer =
  ID :: string
  Name :: string
  Weight :: real
  ProcessingTimeMs :: go_int
  IsHealthy :: bool
  LastHealthCheck :: time
  ProcessedCount :: int64
  ErrorCount :: int64

record AnalysisResult =
  PacketID :: string
  AnalyzerID :: string
  Success :: bool
  ProcessedAt :: time
  Results :: "string \<rightharpoonup> json_value"
  Error :: string

text \<open>\<open>NewLogPacket\<close>: the id is \<open>uuid.New().String()\<close>, an input of the model.\<close>

definition NewLogPacket :: "string \<Rightarrow> LogMessage list \<Rightarrow> LogPacket" where
  "NewLogPacket uuid messages = \<lparr>LogPacket.ID = uuid, Messages = messages, RetryCount = 0\<rparr>"

section \<open>Configuration constants (config/config.go)\<close>

definition Second :: duration where
  "Second = 1000000000"

definition MaxRetries :: go_int where
  "MaxRetries = 3"

definition BaseRetryDelay :: duration where
  "BaseRetryDelay = 2 * Second"

definition RetryBackoffFactor :: go_int where
  "RetryBackoffFactor = 2"

definition MaxPacketSizeBytes :: nat where
  "MaxPacketSizeBytes = 1024 * 1024"

definition MaxMessagesPerPacket :: nat where
  "MaxMessagesPerPacket = 1000"

definition MaxLogMessageLength :: nat where
  "MaxLogMessageLength = 10000"

section \<open>Packet validation (implementations/packet_validator.go)\<close>

text \<open>
  \<open>ValidatePacket\<close> returns a Go \<open>error\<close>: \<open>None\<close> is \<open>nil\<close>. The four \<open>fmt.Errorf\<close>
  messages are the four constructors, each with the number its message prints.
\<close>

datatype validation_error =
    EmptyMessages
  | TooManyMessages nat
  | MessageTooLong nat
  | PacketTooLarge nat

text \<open>The loop over the messages: the first over-long body returns, otherwise the sizes add up.\<close>

fun ValidatePacket_loop :: "LogMessage list \<Rightarrow> nat \<Rightarrow> validation_error + nat" where
  "ValidatePacket_loop [] totalSize = Inr totalSize"
| "ValidatePacket_loop (msg # msgs) totalSize =
     (if length (Message msg) > MaxLogMessageLength
      then Inl (MessageTooLong (length (Message msg)))
      else ValidatePacket_loop msgs (totalSize + length (Message msg)))"

definition ValidatePacket :: "LogPacket \<Rightarrow> validation_error option" where
  "ValidatePacket packet =
     (if length (Messages packet) = 0 then Some EmptyMessages
      else if length (Messages packet) > MaxMessagesPerPacket
      then Some (TooManyMessages (length (Messages packet)))
      else case ValidatePacket_loop (Messages packet) 0 of
             Inl err \<Rightarrow> Some err
           | Inr totalSize \<Rightarrow>
               if totalSize > MaxPacketSizeBytes then Some (PacketTooLarge totalSize)
               else None)"

section \<open>Retry handler (implementations/retry_handler.go)\<close>

record DeadLetterEntry =
  Packet :: LogPacket
  FinalError :: string
  FailedAt :: time

text \<open>
  The dead-letter file \<open>failed_packets.json\<close>: absent (or unreadable), present with content
  that does not parse as a JSON array, or holding a list of entries.
\<close>

datatype dead_letter_file =
    NoFile
  | Unparsable
  | Entries "DeadLetterEntry list"

definition maxDeadLetterEntries :: nat where
  "maxDeadLetterEntries = 10000"

text \<open>
  \<open>saveToDeadLetterFile\<close>. A failed read or parse leaves \<open>deadLetterEntries\<close> nil. The
  entries read are decoded into \<open>[]interface{}\<close> and marshalled again with the new one, so
  an entry that was in the file is written back as \<open>recode\<close> of it: what the generic
  decoding followed by \<open>json.Marshal\<close> makes of an entry (each of its numbers passes through
  \<open>float64\<close>). \<open>recode\<close> is a parameter, of which nothing is assumed; the new entry is
  marshalled from its struct, as it is. \<open>now\<close> is \<open>time.Now()\<close>; \<open>write_ok\<close> says that
  \<open>json.Marshal\<close> and \<open>ioutil.WriteFile\<close> returned no error (otherwise the source only
  logs, and the file is taken to stay as it was).
\<close>

definition saveToDeadLetterFile ::
  "(DeadLetterEntry \<Rightarrow> DeadLetterEntry) \<Rightarrow> LogPacket \<Rightarrow> string \<Rightarrow> time \<Rightarrow> bool \<Rightarrow>
     dead_letter_file \<Rightarrow> dead_letter_file" where
  "saveToDeadLetterFile recode packet finalError now write_ok file =
     (let deadLetterEntry = \<lparr>Packet = packet, FinalError = finalError, FailedAt = now\<rparr>;
          deadLetterEntries = (case file of Entries es \<Rightarrow> map recode es | _ \<Rightarrow> []);
          deadLetterEntries =
            (if length deadLetterEntries \<ge> maxDeadLetterEntries
             then drop (length deadLetterEntries - maxDeadLetterEntries div 2) deadLetterEntries
             else deadLetterEntries);
          deadLetterEntries = deadLetterEntries @ [deadLetterEntry]
      in if write_ok then Entries deadLetterEntries else file)"

text \<open>
  The handler's state: its \<open>packetMap\<close>; the timers started by
  \<open>go r.scheduleRetryWithCleanup(ctx, packet, backoffDuration)\<close>, in the order they were
  started; and the dead-letter file it writes.
\<close>

record RetryHandler =
  packetMap :: "string \<rightharpoonup> LogPacket"
  scheduled :: "(LogPacket \<times> duration) list"
  deadLetterFile :: dead_letter_file

definition NewRetryHandler :: "dead_letter_file \<Rightarrow> RetryHandler" where
  "NewRetryHandler file = \<lparr>packetMap = Map.empty, scheduled = [], deadLetterFile = file\<rparr>"

definition TrackPacket :: "LogPacket \<Rightarrow> RetryHandler \<Rightarrow> RetryHandler" where
  "TrackPacket packet r = r\<lparr>packetMap := (packetMap r)(LogPacket.ID packet \<mapsto> packet)\<rparr>"

definition UntrackPacket :: "string \<Rightarrow> RetryHandler \<Rightarrow> RetryHandler" where
  "UntrackPacket packetID r = r\<lparr>packetMap := (packetMap r)(packetID := None)\<rparr>"

definition HandleFailedPacket ::
  "(DeadLetterEntry \<Rightarrow> DeadLetterEntry) \<Rightarrow> AnalysisResult \<Rightarrow> time \<Rightarrow> bool \<Rightarrow>
     RetryHandler \<Rightarrow> RetryHandler" where
  "HandleFailedPacket recode result now write_ok r =
     (case packetMap r (PacketID result) of
        None \<Rightarrow> r
      | Some packet \<Rightarrow>
          if RetryCount packet <s MaxRetries
          then
            let packet = packet\<lparr>RetryCount := RetryCount packet + 1\<rparr>;
                backoffDuration = (RetryCount packet * RetryBackoffFactor) * BaseRetryDelay
            in r\<lparr>packetMap := (packetMap r)(PacketID result \<mapsto> packet),
                 scheduled := scheduled r @ [(packet, backoffDuration)]\<rparr>
          else
            r\<lparr>packetMap := (packetMap r)(PacketID result := None),
              deadLetterFile :=
                saveToDeadLetterFile recode packet (Error result) now write_ok
                  (deadLetterFile r)\<rparr>)"



section \<open>Distributor (implementations/distributor.go)\<close>

text \<open>
  The part of the distributor that \<open>SubmitPacket\<close> touches: the retry handler, the buffered
  packets queue and the atomic counter.
\<close>

record Distributor =
  retryHandler :: RetryHandler
  packetChannel :: "LogPacket list"
  totalPacketsReceived :: int64

text \<open>
  The \<open>select\<close> of \<open>SubmitPacket\<close> takes one of its three cases; which one is the runtime's
  choice among the ready cases, an input of the model.
\<close>

datatype select_case = Sent | TimedOut | Cancelled

datatype submit_error =
    ValidationFailed validation_error
  | QueueFull
  | ShuttingDown

definition SubmitPacket ::
  "select_case \<Rightarrow> LogPacket \<Rightarrow> Distributor \<Rightarrow> submit_error option \<times> Distributor" where
  "SubmitPacket chosen packet d =
     (case ValidatePacket packet of
        Some err \<Rightarrow> (Some (ValidationFailed err), d)
      | None \<Rightarrow>
          let d = d\<lparr>retryHandler := TrackPacket packet (retryHandler d)\<rparr>;
              d = d\<lparr>totalPacketsReceived := totalPacketsReceived d + 1\<rparr>
          in (case chosen of
                Sent \<Rightarrow> (None, d\<lparr>packetChannel := packetChannel d @ [packet]\<rparr>)
              | TimedOut \<Rightarrow>
                  (Some QueueFull,
                   d\<lparr>retryHandler := UntrackPacket (LogPacket.ID packet) (retryHandler d)\<rparr>)
              | Cancelled \<Rightarrow> (Some ShuttingDown, d)))"

definition NewDistributor :: Distributor where
  "NewDistributor =
     \<lparr>retryHandler = NewRetryHandler NoFile, packetChannel = [], totalPacketsReceived = 0\<rparr>"

section \<open>HTTP handler (api/handlers.go)\<close>

text \<open>
  The loop of \<open>SubmitLogs\<close> over the decoded packets. Each packet comes with the id
  \<open>uuid.New()\<close> would give it and with the case its \<open>SubmitPacket\<close> call's \<open>select\<close> takes.
\<close>

record SubmitLogs_state =
  distributor :: Distributor
  successCount :: nat
  failCount :: nat
  processedPackets :: "string list"

fun SubmitLogs_loop ::
  "(LogPacket \<times> string \<times> select_case) list \<Rightarrow> SubmitLogs_state \<Rightarrow> SubmitLogs_state" where
  "SubmitLogs_loop [] s = s"
| "SubmitLogs_loop ((packet, uuid, chosen) # rest) s =
     (if length (Messages packet) = 0
      then SubmitLogs_loop rest (s\<lparr>failCount := failCount s + 1\<rparr>)
      else
        let packet = (if LogPacket.ID packet = [] then NewLogPacket uuid (Messages packet)
                      else packet)
        in case SubmitPacket chosen packet (distributor s) of
             (Some err, d) \<Rightarrow>
               SubmitLogs_loop rest (s\<lparr>distributor := d, failCount := failCount s + 1\<rparr>)
           | (None, d) \<Rightarrow>
               SubmitLogs_loop rest
                 (s\<lparr>distributor := d, successCount := successCount s + 1,
                    processedPackets := processedPackets s @ [LogPacket.ID packet]\<rparr>))"

section \<open>Load balancer (implementations/load_balancer.go)\<close>

text \<open>
  The registry \<open>lb.analyzers\<close> is a Go map; \<open>SelectAnalyzer\<close> ranges over it once, in an
  order the runtime chooses. The model takes the analyzers as the list that this one
  \<open>range\<close> yields. Reading a weight map at a missing key gives Go's zero value.
\<close>

record WeightedLoadBalancer =
  currentWeights :: "string \<rightharpoonup> real"
  originalWeights :: "string \<rightharpoonup> real"

definition weight_of :: "(string \<rightharpoonup> real) \<Rightarrow> string \<Rightarrow> real" where
  "weight_of m k = (case m k of None \<Rightarrow> 0 | Some w \<Rightarrow> w)"

text \<open>
  First loop: the healthy analyzers and the total of their original weights, each
  \<open>totalWeight += ...\<close> rounded.
\<close>

fun collect_healthy ::
  "(real \<Rightarrow> real) \<Rightarrow> (string \<rightharpoonup> real) \<Rightarrow> Analyzer list \<Rightarrow> Analyzer list \<Rightarrow> real \<Rightarrow>
     Analyzer list \<times> real" where
  "collect_healthy rnd orig [] healthyAnalyzers totalWeight = (healthyAnalyzers, totalWeight)"
| "collect_healthy rnd orig (analyzer # rest) healthyAnalyzers totalWeight =
     (if IsHealthy analyzer
      then collect_healthy rnd orig rest (healthyAnalyzers @ [analyzer])
             (rnd (totalWeight + weight_of orig (Analyzer.ID analyzer)))
      else collect_healthy rnd orig rest healthyAnalyzers totalWeight)"

text \<open>
  Second loop: \<open>lb.currentWeights[analyzer.ID] += lb.originalWeights[analyzer.ID]\<close>, rounded.
\<close>

fun add_original ::
  "(real \<Rightarrow> real) \<Rightarrow> (string \<rightharpoonup> real) \<Rightarrow> Analyzer list \<Rightarrow> (string \<rightharpoonup> real) \<Rightarrow>
     (string \<rightharpoonup> real)" where
  "add_original rnd orig [] cur = cur"
| "add_original rnd orig (analyzer # rest) cur =
     add_original rnd orig rest
       (cur(Analyzer.ID analyzer \<mapsto>
          rnd (weight_of cur (Analyzer.ID analyzer) + weight_of orig (Analyzer.ID analyzer))))"

text \<open>Third loop: the highest current weight, compared with \<open>>\<close> from \<open>maxWeight = -1\<close>.\<close>

fun find_max ::
  "(string \<rightharpoonup> real) \<Rightarrow> Analyzer list \<Rightarrow> Analyzer option \<Rightarrow> real \<Rightarrow> Analyzer option" where
  "find_max cur [] selectedAnalyzer maxWeight = selectedAnalyzer"
| "find_max cur (analyzer # rest) selectedAnalyzer maxWeight =
     (let currentWeight = weight_of cur (Analyzer.ID analyzer)
      in if currentWeight > maxWeight then find_max cur rest (Some analyzer) currentWeight
         else find_max cur rest selectedAnalyzer maxWeight)"

text \<open>
  \<open>SelectAnalyzer\<close>; the last step is
  \<open>lb.currentWeights[selectedAnalyzer.ID] -= totalWeight\<close>, rounded.
\<close>

definition SelectAnalyzer ::
  "(real \<Rightarrow> real) \<Rightarrow> Analyzer list \<Rightarrow> WeightedLoadBalancer \<Rightarrow>
     Analyzer option \<times> WeightedLoadBalancer" where
  "SelectAnalyzer rnd analyzers lb =
     (if length analyzers = 0 then (None, lb)
      else
        case collect_healthy rnd (originalWeights lb) analyzers [] 0 of
          (healthyAnalyzers, totalWeight) \<Rightarrow>
            if length healthyAnalyzers = 0 \<or> totalWeight = 0 then (None, lb)
            else
              let cur = add_original rnd (originalWeights lb) healthyAnalyzers
                          (currentWeights lb)
              in case find_max cur healthyAnalyzers None (- 1) of
                   None \<Rightarrow> (None, lb\<lparr>currentWeights := cur\<rparr>)
                 | Some selectedAnalyzer \<Rightarrow>
                     (Some selectedAnalyzer,
                      lb\<lparr>currentWeights :=
                           cur(Analyzer.ID selectedAnalyzer \<mapsto>
                             rnd (weight_of cur (Analyzer.ID selectedAnalyzer)
                                    - totalWeight))\<rparr>))"

text \<open>\<open>NewLoadBalancer\<close>: both weight maps start at the analyzers' configured weights.\<close>

fun NewLoadBalancer_loop :: "Analyzer list \<Rightarrow> WeightedLoadBalancer \<Rightarrow> WeightedLoadBalancer" where
  "NewLoadBalancer_loop [] lb = lb"
| "NewLoadBalancer_loop (analyzer # rest) lb =
     NewLoadBalancer_loop rest
       (lb\<lparr>currentWeights := (currentWeights lb)(Analyzer.ID analyzer \<mapsto> Weight analyzer),
           originalWeights := (originalWeights lb)(Analyzer.ID analyzer \<mapsto> Weight analyzer)\<rparr>)"

definition NewLoadBalancer :: "Analyzer list \<Rightarrow> WeightedLoadBalancer" where
  "NewLoadBalancer analyzers =
     NewLoadBalancer_loop analyzers \<lparr>currentWeights = Map.empty, originalWeights = Map.empty\<rparr>"

text \<open>
  The healthy analyzers of a registry, in iteration order, and the total of their original
  weights, added up from 0 in that order and rounded at each step, as the first loop does.
\<close>

definition healthy :: "Analyzer list \<Rightarrow> Analyzer list" where
  "healthy analyzers = filter IsHealthy analyzers"

definition total_original ::
  "(real \<Rightarrow> real) \<Rightarrow> (string \<rightharpoonup> real) \<Rightarrow> Analyzer list \<Rightarrow> real" where
  "total_original rnd orig analyzers =
     foldl (\<lambda>t a. rnd (t + weight_of orig (Analyzer.ID a))) 0 (healthy analyzers)"

section \<open>Concrete inputs\<close>

text \<open>
  The two parameters, on inputs where they change nothing. \<open>float64\<close> represents every
  multiple of 1/2 of small magnitude exactly, so on the weights of the analyzers defined
  below (1/2 and 1) every sum and difference that \<open>SelectAnalyzer\<close> forms is representable
  and the rounding returns it as it is. An entry whose numbers are small integers and
  whose strings are ASCII is marshalled again, after the generic decoding, to what it was.
\<close>

definition exact :: "real \<Rightarrow> real" where
  "exact x = x"

definition same_entry :: "DeadLetterEntry \<Rightarrow> DeadLetterEntry" where
  "same_entry e = e"

definition msg1 :: LogMessage where
  "msg1 = \<lparr>LogMessage.ID = ''m1'', Timestamp = 0, Level = ''INFO'', Message = ''disk full'',
           Source = ''api'', Metadata = Map.empty\<rparr>"

definition pkt1 :: LogPacket where
  "pkt1 = \<lparr>LogPacket.ID = ''pkt-1'', Messages = [msg1], RetryCount = 0\<rparr>"

definition fail1 :: AnalysisResult where
  "fail1 = \<lparr>PacketID = ''pkt-1'', AnalyzerID = ''analyzer-a1'', Success = False,
            ProcessedAt = 0, Results = Map.empty, Error = ''simulated processing error''\<rparr>"


definition pkt0 :: LogPacket where
  "pkt0 = \<lparr>LogPacket.ID = [], Messages = [msg1], RetryCount = 0\<rparr>"

definition a1 :: Analyzer where
  "a1 = \<lparr>Analyzer.ID = ''analyzer-a1'', Name = ''Analyzer A'', Weight = 1 / 2,
          ProcessingTimeMs = 100, IsHealthy = True, LastHealthCheck = 0,
          ProcessedCount = 0, ErrorCount = 0\<rparr>"

definition a2 :: Analyzer where
  "a2 = \<lparr>Analyzer.ID = ''analyzer-a2'', Name = ''Analyzer B'', Weight = 1 / 2,
          ProcessingTimeMs = 150, IsHealthy = True, LastHealthCheck = 0,
          ProcessedCount = 0, ErrorCount = 0\<rparr>"

definition unit_analyzer :: "string \<Rightarrow> bool \<Rightarrow> Analyzer" where
  "unit_analyzer name up =
     \<lparr>Analyzer.ID = name, Name = name, Weight = 1, ProcessingTimeMs = 1, IsHealthy = up,
      LastHealthCheck = 0, ProcessedCount = 0, ErrorCount = 0\<rparr>"

section \<open>Packet validation: the accepted packets and the error of each rejected one\<close>

lemma ValidatePacket_loop_Inr:
  "ValidatePacket_loop msgs t = Inr n \<longleftrightarrow>
     (\<forall>m \<in> set msgs. length (Message m) \<le> MaxLogMessageLength) \<and>
     n = t + sum_list (map (\<lambda>m. length (Message m)) msgs)"
  by (induction msgs arbitrary: t) auto

lemma ValidatePacket_loop_Inl:
  "ValidatePacket_loop msgs t = Inl e \<Longrightarrow>
     \<exists>m \<in> set msgs. e = MessageTooLong (length (Message m)) \<and>
        length (Message m) > MaxLogMessageLength"
  by (induction msgs arbitrary: t) (auto split: if_splits)

text \<open>
  Claim C6. \<open>ValidatePacket\<close> accepts a packet exactly when it has between 1 and
  \<open>MaxMessagesPerPacket\<close> messages, no body longer than \<open>MaxLogMessageLength\<close> bytes and
  at most \<open>MaxPacketSizeBytes\<close> bytes of bodies in all. Every other packet gets one error,
  the one of the first check that fails, the checks being made in the order of the claim:
  \<open>EmptyMessages\<close> for no message, \<open>TooManyMessages\<close> for too many, \<open>MessageTooLong\<close> when
  the count is in range and some body is too long, \<open>PacketTooLarge\<close> when count and bodies
  are in range and the bodies together are too large.
\<close>

theorem ValidatePacket_spec:
  "(ValidatePacket p = None \<longleftrightarrow>
      1 \<le> length (Messages p) \<and> length (Messages p) \<le> MaxMessagesPerPacket \<and>
      (\<forall>m \<in> set (Messages p). length (Message m) \<le> MaxLogMessageLength) \<and>
      sum_list (map (\<lambda>m. length (Message m)) (Messages p)) \<le> MaxPacketSizeBytes) \<and>
   (ValidatePacket p = Some EmptyMessages \<longleftrightarrow> length (Messages p) = 0) \<and>
   ((\<exists>n. ValidatePacket p = Some (TooManyMessages n)) \<longleftrightarrow>
      length (Messages p) > MaxMessagesPerPacket) \<and>
   ((\<exists>n. ValidatePacket p = Some (MessageTooLong n)) \<longleftrightarrow>
      1 \<le> length (Messages p) \<and> length (Messages p) \<le> MaxMessagesPerPacket \<and>
      (\<exists>m \<in> set (Messages p). length (Message m) > MaxLogMessageLength)) \<and>
   ((\<exists>n. ValidatePacket p = Some (PacketTooLarge n)) \<longleftrightarrow>
      1 \<le> length (Messages p) \<and> length (Messages p) \<le> MaxMessagesPerPacket \<and>
      (\<forall>m \<in> set (Messages p). length (Message m) \<le> MaxLogMessageLength) \<and>
      sum_list (map (\<lambda>m. length (Message m)) (Messages p)) > MaxPacketSizeBytes)"
proof -
  let ?n = "length (Messages p)"
  let ?sum = "sum_list (map (\<lambda>m. length (Message m)) (Messages p))"
  let ?short = "\<forall>m \<in> set (Messages p). length (Message m) \<le> MaxLogMessageLength"
  consider (empty) "?n = 0" | (many) "?n > MaxMessagesPerPacket"
    | (long) "1 \<le> ?n" "?n \<le> MaxMessagesPerPacket" "\<not> ?short"
    | (sized) "1 \<le> ?n" "?n \<le> MaxMessagesPerPacket" "?short"
    by linarith
  then show ?thesis
  proof cases
    case empty
    then have "ValidatePacket p = Some EmptyMessages" by (simp add: ValidatePacket_def)
    with empty show ?thesis by (simp add: MaxMessagesPerPacket_def)
  next
    case many
    then have "ValidatePacket p = Some (TooManyMessages ?n)"
      by (auto simp: ValidatePacket_def MaxMessagesPerPacket_def)
    with many show ?thesis by auto
  next
    case long
    then have "\<forall>n. ValidatePacket_loop (Messages p) 0 \<noteq> Inr n"
      by (simp add: ValidatePacket_loop_Inr)
    then obtain e where e: "ValidatePacket_loop (Messages p) 0 = Inl e"
      by (cases "ValidatePacket_loop (Messages p) 0") auto
    from ValidatePacket_loop_Inl[OF e] obtain k where "e = MessageTooLong k" by auto
    with e long have "ValidatePacket p = Some (MessageTooLong k)"
      by (auto simp: ValidatePacket_def)
    moreover from long have "\<exists>m \<in> set (Messages p). length (Message m) > MaxLogMessageLength"
      by (simp add: not_le)
    ultimately show ?thesis using long(1,2) by (fastforce simp: not_le)
  next
    case sized
    then have l: "ValidatePacket_loop (Messages p) 0 = Inr ?sum"
      by (simp add: ValidatePacket_loop_Inr)
    show ?thesis
    proof (cases "?sum > MaxPacketSizeBytes")
      case True
      with l sized have v: "ValidatePacket p = Some (PacketTooLarge ?sum)"
        by (auto simp: ValidatePacket_def)
      show ?thesis unfolding v using True sized by auto
    next
      case False
      with l sized have v: "ValidatePacket p = None"
        by (auto simp: ValidatePacket_def)
      show ?thesis unfolding v using False sized by auto
    qed
  qed
qed

theorem ValidatePacket_spec_witness:
  "ValidatePacket \<lparr>LogPacket.ID = ''p1'', Messages = [msg1], RetryCount = 0\<rparr> = None \<and>
   ValidatePacket \<lparr>LogPacket.ID = ''p2'', Messages = [], RetryCount = 0\<rparr> = Some EmptyMessages \<and>
   (\<exists>n. ValidatePacket \<lparr>LogPacket.ID = ''p3'', Messages = replicate 1001 msg1, RetryCount = 0\<rparr>
         = Some (TooManyMessages n))"
  using ValidatePacket_spec[of "\<lparr>LogPacket.ID = ''p1'', Messages = [msg1], RetryCount = 0\<rparr>"]
    ValidatePacket_spec[of "\<lparr>LogPacket.ID = ''p2'', Messages = [], RetryCount = 0\<rparr>"]
    ValidatePacket_spec[of "\<lparr>LogPacket.ID = ''p3'', Messages = replicate 1001 msg1, RetryCount = 0\<rparr>"]
  by (simp add: msg1_def MaxMessagesPerPacket_def MaxLogMessageLength_def MaxPacketSizeBytes_def)

section \<open>Retry handler: retry counts, backoff delays and dead letters\<close>

lemma small_retry_count:
  assumes "0 \<le>s (c :: go_int)" "c <s MaxRetries"
  shows "c = 0 \<or> c = 1 \<or> c = 2"
proof -
  from assms have "0 \<le> sint c" "sint c < 3"
    by (simp_all add: word_sle_eq word_sless_alt MaxRetries_def)
  then have "sint c = 0 \<or> sint c = 1 \<or> sint c = 2" by arith
  moreover have "c = of_int (sint c)" by simp
  ultimately show ?thesis by (metis of_int_0 of_int_1 of_int_numeral)
qed

lemma sint_succ_below:
  assumes "(c :: go_int) <s MaxRetries"
  shows "sint (c + 1) = sint c + 1"
proof -
  from assms have "sint c < 3" by (simp add: word_sless_alt MaxRetries_def)
  moreover have "- (2 ^ 63) \<le> sint c" using sint_ge[of c] by simp
  ultimately show ?thesis
    by (simp add: sint_word_ariths signed_take_bit_int_eq_self)
qed

lemma HandleFailedPacket_below:
  assumes "packetMap r (PacketID result) = Some packet" "RetryCount packet <s MaxRetries"
  shows "HandleFailedPacket recode result now write_ok r =
     r\<lparr>packetMap := (packetMap r)(PacketID result \<mapsto> packet\<lparr>RetryCount := RetryCount packet + 1\<rparr>),
       scheduled := scheduled r @
         [(packet\<lparr>RetryCount := RetryCount packet + 1\<rparr>,
           (RetryCount packet + 1) * RetryBackoffFactor * BaseRetryDelay)]\<rparr>"
  using assms by (simp add: HandleFailedPacket_def Let_def)


text \<open>
  Claim C3. When the packet of a failed result is tracked with a retry count below
  \<open>MaxRetries\<close>, \<open>HandleFailedPacket\<close> stores the packet back with its retry count
  incremented by exactly one (no wrap-around), and starts one timer for the stored packet
  whose delay is the new retry count times \<open>RetryBackoffFactor\<close> times \<open>BaseRetryDelay\<close>,
  in Go's 64-bit arithmetic; for a retry count that is not negative this is the product of
  the three integers, in nanoseconds. With the stock constants, three successive failures
  of a packet that starts at retry count 0 start timers of 4, 8 and 12 seconds.
\<close>

theorem HandleFailedPacket_backoff:
  assumes tracked: "packetMap r (PacketID result) = Some packet"
    and below: "RetryCount packet <s MaxRetries"
  shows "packetMap (HandleFailedPacket recode result now write_ok r) (PacketID result) =
           Some (packet\<lparr>RetryCount := RetryCount packet + 1\<rparr>) \<and>
         sint (RetryCount packet + 1) = sint (RetryCount packet) + 1 \<and>
         scheduled (HandleFailedPacket recode result now write_ok r) =
           scheduled r @
             [(packet\<lparr>RetryCount := RetryCount packet + 1\<rparr>,
               (RetryCount packet + 1) * RetryBackoffFactor * BaseRetryDelay)] \<and>
         (0 \<le>s RetryCount packet \<longrightarrow>
            sint ((RetryCount packet + 1) * RetryBackoffFactor * BaseRetryDelay) =
              (sint (RetryCount packet) + 1) * sint RetryBackoffFactor * sint BaseRetryDelay) \<and>
         (RetryCount packet = 0 \<longrightarrow>
            map snd (scheduled
              (HandleFailedPacket recode result now write_ok
                (HandleFailedPacket recode result now write_ok
                  (HandleFailedPacket recode result now write_ok r)))) =
              map snd (scheduled r) @ [4 * Second, 8 * Second, 12 * Second])"
proof (intro conjI impI)
  note step = HandleFailedPacket_below[OF tracked below, of recode now write_ok]
  show "packetMap (HandleFailedPacket recode result now write_ok r) (PacketID result) =
           Some (packet\<lparr>RetryCount := RetryCount packet + 1\<rparr>)"
    by (simp add: step)
  show "sint (RetryCount packet + 1) = sint (RetryCount packet) + 1"
    by (rule sint_succ_below[OF below])
  show "scheduled (HandleFailedPacket recode result now write_ok r) =
           scheduled r @
             [(packet\<lparr>RetryCount := RetryCount packet + 1\<rparr>,
               (RetryCount packet + 1) * RetryBackoffFactor * BaseRetryDelay)]"
    by (simp add: step)
next
  assume "0 \<le>s RetryCount packet"
  from small_retry_count[OF this below]
  show "sint ((RetryCount packet + 1) * RetryBackoffFactor * BaseRetryDelay) =
          (sint (RetryCount packet) + 1) * sint RetryBackoffFactor * sint BaseRetryDelay"
    by (auto simp: RetryBackoffFactor_def BaseRetryDelay_def Second_def)
next
  assume zero: "RetryCount packet = 0"
  let ?H = "HandleFailedPacket recode result now write_ok"
  let ?p1 = "packet\<lparr>RetryCount := 1\<rparr>"
  let ?p2 = "packet\<lparr>RetryCount := 2\<rparr>"
  have r1: "?H r = r\<lparr>packetMap := (packetMap r)(PacketID result \<mapsto> ?p1),
       scheduled := scheduled r @ [(?p1, 4 * Second)]\<rparr>"
    using HandleFailedPacket_below[OF tracked below, of recode now write_ok] zero
    by (simp add: RetryBackoffFactor_def BaseRetryDelay_def)
  have r2: "?H (?H r) = r\<lparr>packetMap := (packetMap r)(PacketID result \<mapsto> ?p2),
       scheduled := scheduled r @ [(?p1, 4 * Second), (?p2, 8 * Second)]\<rparr>"
    unfolding r1
    by (subst HandleFailedPacket_below[where packet = ?p1])
       (simp_all add: RetryBackoffFactor_def BaseRetryDelay_def MaxRetries_def word_sless_alt)
  show "map snd (scheduled (?H (?H (?H r)))) =
          map snd (scheduled r) @ [4 * Second, 8 * Second, 12 * Second]"
    unfolding r2
    by (subst HandleFailedPacket_below[where packet = ?p2])
       (simp_all add: RetryBackoffFactor_def BaseRetryDelay_def MaxRetries_def word_sless_alt)
qed

theorem HandleFailedPacket_backoff_witness:
  "packetMap (HandleFailedPacket same_entry fail1 7 True (TrackPacket pkt1 (NewRetryHandler NoFile))) ''pkt-1'' =
     Some (pkt1\<lparr>RetryCount := 1\<rparr>) \<and>
   scheduled (HandleFailedPacket same_entry fail1 7 True (TrackPacket pkt1 (NewRetryHandler NoFile))) =
     [(pkt1\<lparr>RetryCount := 1\<rparr>, 4000000000)] \<and>
   map snd (scheduled
     (HandleFailedPacket same_entry fail1 7 True
       (HandleFailedPacket same_entry fail1 7 True
         (HandleFailedPacket same_entry fail1 7 True (TrackPacket pkt1 (NewRetryHandler NoFile)))))) =
     [4000000000, 8000000000, 12000000000]"
  using HandleFailedPacket_backoff[of "TrackPacket pkt1 (NewRetryHandler NoFile)" fail1 pkt1
      same_entry 7 True]
  by (simp add: TrackPacket_def NewRetryHandler_def pkt1_def fail1_def MaxRetries_def
      RetryBackoffFactor_def BaseRetryDelay_def Second_def word_sless_alt)









section \<open>Submission: tracking, the received counter and packet ids\<close>

lemma ValidatePacket_pkt1: "ValidatePacket pkt1 = None"
  by (simp add: ValidatePacket_def pkt1_def msg1_def MaxMessagesPerPacket_def
      MaxLogMessageLength_def MaxPacketSizeBytes_def)

lemma ValidatePacket_pkt0: "ValidatePacket pkt0 = None"
  by (simp add: ValidatePacket_def pkt0_def msg1_def MaxMessagesPerPacket_def
      MaxLogMessageLength_def MaxPacketSizeBytes_def)

lemma ValidatePacket_Messages:
  "Messages p = Messages q \<Longrightarrow> ValidatePacket p = ValidatePacket q"
  by (simp add: ValidatePacket_def)

lemma SubmitPacket_valid:
  assumes "ValidatePacket packet = None"
  shows "SubmitPacket Sent packet d =
           (None, d\<lparr>retryHandler := TrackPacket packet (retryHandler d),
                     totalPacketsReceived := totalPacketsReceived d + 1,
                     packetChannel := packetChannel d @ [packet]\<rparr>)"
    and "SubmitPacket TimedOut packet d =
           (Some QueueFull,
            d\<lparr>retryHandler := UntrackPacket (LogPacket.ID packet)
                                (TrackPacket packet (retryHandler d)),
              totalPacketsReceived := totalPacketsReceived d + 1\<rparr>)"
    and "SubmitPacket Cancelled packet d =
           (Some ShuttingDown,
            d\<lparr>retryHandler := TrackPacket packet (retryHandler d),
              totalPacketsReceived := totalPacketsReceived d + 1\<rparr>)"
  using assms by (simp_all add: SubmitPacket_def Let_def)


text \<open>
  Claim C1, at a concrete submission. A valid packet whose submission ends on the cancelled
  context gets the error \<open>ShuttingDown\<close> and is still in the retry handler's map afterwards;
  the submission that times out gets \<open>QueueFull\<close> and leaves the map without the packet.
\<close>

theorem SubmitPacket_cancelled_stays_tracked:
  "ValidatePacket pkt1 = None \<and>
   fst (SubmitPacket Cancelled pkt1 NewDistributor) = Some ShuttingDown \<and>
   packetMap (retryHandler (snd (SubmitPacket Cancelled pkt1 NewDistributor))) (LogPacket.ID pkt1)
     = Some pkt1 \<and>
   fst (SubmitPacket TimedOut pkt1 NewDistributor) = Some QueueFull \<and>
   packetMap (retryHandler (snd (SubmitPacket TimedOut pkt1 NewDistributor))) (LogPacket.ID pkt1)
     = None"
  by (simp add: SubmitPacket_valid[OF ValidatePacket_pkt1] ValidatePacket_pkt1 NewDistributor_def
      NewRetryHandler_def TrackPacket_def UntrackPacket_def)




text \<open>
  Claim C7 as stated fails: \<open>SubmitPacket\<close> on a valid packet whose id is the empty string
  returns no error, tracks the packet under the empty id and puts it on the packets queue
  with its id still empty.
\<close>

theorem SubmitPacket_empty_id_counterexample:
  "LogPacket.ID pkt0 = [] \<and>
   fst (SubmitPacket Sent pkt0 NewDistributor) = None \<and>
   packetMap (retryHandler (snd (SubmitPacket Sent pkt0 NewDistributor))) [] = Some pkt0 \<and>
   packetChannel (snd (SubmitPacket Sent pkt0 NewDistributor)) = [pkt0] \<and>
   map LogPacket.ID (packetChannel (snd (SubmitPacket Sent pkt0 NewDistributor))) = [[]]"
  by (simp add: SubmitPacket_valid[OF ValidatePacket_pkt0] NewDistributor_def
      NewRetryHandler_def TrackPacket_def) (simp add: pkt0_def)

text \<open>
  Claim C7, amended. \<open>SubmitPacket\<close> never changes a packet's id: an enqueued packet is
  tracked under the id it came with and is put on the packets queue as it came. The id of
  a packet that has none is assigned by the HTTP handler \<open>SubmitLogs\<close>, before it calls
  \<open>SubmitPacket\<close>: it replaces a packet with messages and an empty id by
  \<open>NewLogPacket\<close> of its messages, so that the packet is tracked, enqueued and reported
  under the generated id, which is not empty when the generated UUID is not.
\<close>

theorem SubmitPacket_keeps_id:
  "(ValidatePacket packet = None \<longrightarrow>
      fst (SubmitPacket Sent packet d) = None \<and>
      packetMap (retryHandler (snd (SubmitPacket Sent packet d))) (LogPacket.ID packet)
        = Some packet \<and>
      packetChannel (snd (SubmitPacket Sent packet d)) = packetChannel d @ [packet]) \<and>
   (ValidatePacket packet = None \<and> LogPacket.ID packet = [] \<and> uuid \<noteq> [] \<longrightarrow>
      packetMap (retryHandler (distributor (SubmitLogs_loop [(packet, uuid, Sent)] s))) uuid
        = Some (NewLogPacket uuid (Messages packet)) \<and>
      packetChannel (distributor (SubmitLogs_loop [(packet, uuid, Sent)] s))
        = packetChannel (distributor s) @ [NewLogPacket uuid (Messages packet)] \<and>
      LogPacket.ID (NewLogPacket uuid (Messages packet)) = uuid \<and>
      processedPackets (SubmitLogs_loop [(packet, uuid, Sent)] s) = processedPackets s @ [uuid])"
proof (intro conjI impI)
  assume v: "ValidatePacket packet = None"
  show "fst (SubmitPacket Sent packet d) = None"
    by (simp add: SubmitPacket_valid[OF v])
  show "packetMap (retryHandler (snd (SubmitPacket Sent packet d))) (LogPacket.ID packet)
        = Some packet"
    by (simp add: SubmitPacket_valid[OF v] TrackPacket_def)
  show "packetChannel (snd (SubmitPacket Sent packet d)) = packetChannel d @ [packet]"
    by (simp add: SubmitPacket_valid[OF v])
next
  assume a: "ValidatePacket packet = None \<and> LogPacket.ID packet = [] \<and> uuid \<noteq> []"
  let ?new = "NewLogPacket uuid (Messages packet)"
  have m: "Messages ?new = Messages packet" and i: "LogPacket.ID ?new = uuid"
    by (simp_all add: NewLogPacket_def)
  from a have v: "ValidatePacket ?new = None"
    using ValidatePacket_Messages[OF m] by simp
  from a have ne: "length (Messages packet) \<noteq> 0"
    by (auto simp: ValidatePacket_def split: if_splits)
  have loop: "SubmitLogs_loop [(packet, uuid, Sent)] s =
      s\<lparr>distributor := snd (SubmitPacket Sent ?new (distributor s)),
        successCount := successCount s + 1,
        processedPackets := processedPackets s @ [uuid]\<rparr>"
    using a ne by (simp add: SubmitPacket_valid[OF v] i Let_def)
  show "packetMap (retryHandler (distributor (SubmitLogs_loop [(packet, uuid, Sent)] s))) uuid
        = Some ?new"
    unfolding loop by (simp add: SubmitPacket_valid[OF v] TrackPacket_def i)
  show "packetChannel (distributor (SubmitLogs_loop [(packet, uuid, Sent)] s))
        = packetChannel (distributor s) @ [?new]"
    unfolding loop by (simp add: SubmitPacket_valid[OF v])
  show "LogPacket.ID ?new = uuid" by (rule i)
  show "processedPackets (SubmitLogs_loop [(packet, uuid, Sent)] s) = processedPackets s @ [uuid]"
    unfolding loop by simp
qed

theorem SubmitPacket_keeps_id_witness:
  "packetMap (retryHandler (snd (SubmitPacket Sent pkt1 NewDistributor))) ''pkt-1'' = Some pkt1 \<and>
   packetChannel (snd (SubmitPacket Sent pkt1 NewDistributor)) = [pkt1] \<and>
   packetChannel (distributor (SubmitLogs_loop [(pkt0, ''3f2a'', Sent)]
      \<lparr>distributor = NewDistributor, successCount = 0, failCount = 0, processedPackets = []\<rparr>))
     = [\<lparr>LogPacket.ID = ''3f2a'', Messages = [msg1], RetryCount = 0\<rparr>] \<and>
   processedPackets (SubmitLogs_loop [(pkt0, ''3f2a'', Sent)]
      \<lparr>distributor = NewDistributor, successCount = 0, failCount = 0, processedPackets = []\<rparr>)
     = [''3f2a'']"
  using SubmitPacket_keeps_id[of pkt1 NewDistributor "''3f2a''"
      "\<lparr>distributor = NewDistributor, successCount = 0, failCount = 0, processedPackets = []\<rparr>"]
    SubmitPacket_keeps_id[of pkt0 NewDistributor "''3f2a''"
      "\<lparr>distributor = NewDistributor, successCount = 0, failCount = 0, processedPackets = []\<rparr>"]
  by (simp add: ValidatePacket_pkt1 ValidatePacket_pkt0 NewDistributor_def)
     (simp add: pkt1_def pkt0_def NewLogPacket_def)

section \<open>Load balancer: what SelectAnalyzer returns\<close>

lemma collect_healthy_eq:
  "collect_healthy rnd orig xs acc t =
     (acc @ filter IsHealthy xs,
      foldl (\<lambda>t a. rnd (t + weight_of orig (Analyzer.ID a))) t (filter IsHealthy xs))"
  by (induction xs arbitrary: acc t) simp_all

lemma collect_healthy_start:
  "collect_healthy rnd orig analyzers [] 0 =
     (healthy analyzers, total_original rnd orig analyzers)"
  by (simp add: collect_healthy_eq healthy_def total_original_def)

lemma find_max_None:
  "find_max cur xs sel m = None \<longleftrightarrow>
     sel = None \<and> (\<forall>a \<in> set xs. weight_of cur (Analyzer.ID a) \<le> m)"
  by (induction xs arbitrary: sel m) (auto simp: Let_def)

lemma find_max_Some:
  "find_max cur xs sel m = Some j \<Longrightarrow>
     (sel = Some j \<and> (\<forall>a \<in> set xs. weight_of cur (Analyzer.ID a) \<le> m)) \<or>
     (\<exists>pre post. xs = pre @ j # post \<and>
        (\<forall>a \<in> set pre. weight_of cur (Analyzer.ID a) < weight_of cur (Analyzer.ID j)) \<and>
        (\<forall>a \<in> set post. weight_of cur (Analyzer.ID a) \<le> weight_of cur (Analyzer.ID j)) \<and>
        m < weight_of cur (Analyzer.ID j))"
proof (induction xs arbitrary: sel m)
  case Nil
  then show ?case by simp
next
  case (Cons x xs)
  let ?w = "\<lambda>a. weight_of cur (Analyzer.ID a)"
  show ?case
  proof (cases "?w x > m")
    case True
    with Cons.prems have "find_max cur xs (Some x) (?w x) = Some j" by (simp add: Let_def)
    from Cons.IH[OF this] show ?thesis
    proof
      assume "Some x = Some j \<and> (\<forall>a \<in> set xs. ?w a \<le> ?w x)"
      with True have "x # xs = [] @ j # xs \<and> (\<forall>a \<in> set []. ?w a < ?w j) \<and>
          (\<forall>a \<in> set xs. ?w a \<le> ?w j) \<and> m < ?w j" by auto
      then show ?thesis by blast
    next
      assume "\<exists>pre post. xs = pre @ j # post \<and> (\<forall>a \<in> set pre. ?w a < ?w j) \<and>
          (\<forall>a \<in> set post. ?w a \<le> ?w j) \<and> ?w x < ?w j"
      then obtain pre post where p: "xs = pre @ j # post" "\<forall>a \<in> set pre. ?w a < ?w j"
          "\<forall>a \<in> set post. ?w a \<le> ?w j" "?w x < ?w j" by blast
      with True have "x # xs = (x # pre) @ j # post \<and> (\<forall>a \<in> set (x # pre). ?w a < ?w j) \<and>
          (\<forall>a \<in> set post. ?w a \<le> ?w j) \<and> m < ?w j" by auto
      then show ?thesis by blast
    qed
  next
    case False
    with Cons.prems have "find_max cur xs sel m = Some j" by (simp add: Let_def)
    from Cons.IH[OF this] show ?thesis
    proof
      assume "sel = Some j \<and> (\<forall>a \<in> set xs. ?w a \<le> m)"
      with False show ?thesis by simp
    next
      assume "\<exists>pre post. xs = pre @ j # post \<and> (\<forall>a \<in> set pre. ?w a < ?w j) \<and>
          (\<forall>a \<in> set post. ?w a \<le> ?w j) \<and> m < ?w j"
      then obtain pre post where p: "xs = pre @ j # post" "\<forall>a \<in> set pre. ?w a < ?w j"
          "\<forall>a \<in> set post. ?w a \<le> ?w j" "m < ?w j" by blast
      with False have "x # xs = (x # pre) @ j # post \<and> (\<forall>a \<in> set (x # pre). ?w a < ?w j) \<and>
          (\<forall>a \<in> set post. ?w a \<le> ?w j) \<and> m < ?w j" by auto
      then show ?thesis by blast
    qed
  qed
qed

lemma add_original_other:
  "k \<notin> Analyzer.ID ` set xs \<Longrightarrow> weight_of (add_original rnd orig xs cur) k = weight_of cur k"
  by (induction xs arbitrary: cur) (auto simp: weight_of_def)

lemma add_original_distinct:
  "distinct (map Analyzer.ID xs) \<Longrightarrow>
     weight_of (add_original rnd orig xs cur) k =
       (if k \<in> Analyzer.ID ` set xs then rnd (weight_of cur k + weight_of orig k)
        else weight_of cur k)"
proof (induction xs arbitrary: cur)
  case Nil
  then show ?case by simp
next
  case (Cons x xs)
  then have d: "distinct (map Analyzer.ID xs)" and n: "Analyzer.ID x \<notin> Analyzer.ID ` set xs"
    by auto
  show ?case
  proof (cases "k = Analyzer.ID x")
    case True
    with n show ?thesis by (simp add: add_original_other) (simp add: weight_of_def)
  next
    case False
    then show ?thesis by (simp add: Cons.IH[OF d]) (simp add: weight_of_def)
  qed
qed

lemma SelectAnalyzer_none:
  assumes "healthy analyzers = [] \<or> total_original rnd (originalWeights lb) analyzers = 0"
  shows "SelectAnalyzer rnd analyzers lb = (None, lb)"
  using assms by (auto simp: SelectAnalyzer_def collect_healthy_start)

lemma SelectAnalyzer_some:
  assumes h: "healthy analyzers \<noteq> []"
    and w: "total_original rnd (originalWeights lb) analyzers \<noteq> 0"
  shows "SelectAnalyzer rnd analyzers lb =
     (let cur = add_original rnd (originalWeights lb) (healthy analyzers) (currentWeights lb)
      in case find_max cur (healthy analyzers) None (- 1) of
           None \<Rightarrow> (None, lb\<lparr>currentWeights := cur\<rparr>)
         | Some j \<Rightarrow>
             (Some j,
              lb\<lparr>currentWeights :=
                   cur(Analyzer.ID j \<mapsto>
                     rnd (weight_of cur (Analyzer.ID j)
                            - total_original rnd (originalWeights lb) analyzers))\<rparr>))"
proof -
  from h have "analyzers \<noteq> []" by (auto simp: healthy_def)
  with h w show ?thesis by (simp add: SelectAnalyzer_def collect_healthy_start)
qed

text \<open>
  Claim C4 as stated fails, in two ways. With two healthy analyzers of weight 0.5 that the
  map iteration yields as \<open>analyzer-a2\<close>, \<open>analyzer-a1\<close>, both current weights are 1 after
  the update and \<open>SelectAnalyzer\<close> returns \<open>analyzer-a2\<close>, not the smaller id. And with four
  analyzers of weight 1, the first selection leaves \<open>n1\<close> at current weight -2; when the
  other three are then unhealthy, the healthy set is \<open>n1\<close> alone and the sum of its original
  weights is 1, yet \<open>SelectAnalyzer\<close> returns no analyzer: the updated weight -1 is not
  above the starting maximum -1. Every number that arises here is a multiple of 1/2 of
  magnitude at most 4, which \<open>float64\<close> adds and subtracts without rounding.
\<close>

theorem SelectAnalyzer_counterexample:
  "''analyzer-a1'' < ''analyzer-a2'' \<and>
   healthy [a2, a1] = [a2, a1] \<and>
   weight_of (add_original exact (originalWeights (NewLoadBalancer [a2, a1])) [a2, a1]
                (currentWeights (NewLoadBalancer [a2, a1]))) ''analyzer-a1'' = 1 \<and>
   weight_of (add_original exact (originalWeights (NewLoadBalancer [a2, a1])) [a2, a1]
                (currentWeights (NewLoadBalancer [a2, a1]))) ''analyzer-a2'' = 1 \<and>
   fst (SelectAnalyzer exact [a2, a1] (NewLoadBalancer [a2, a1])) = Some a2 \<and>
   fst (SelectAnalyzer exact
          [unit_analyzer ''n1'' True, unit_analyzer ''n2'' True, unit_analyzer ''n3'' True,
           unit_analyzer ''n4'' True]
          (NewLoadBalancer
            [unit_analyzer ''n1'' True, unit_analyzer ''n2'' True, unit_analyzer ''n3'' True,
             unit_analyzer ''n4'' True])) = Some (unit_analyzer ''n1'' True) \<and>
   healthy [unit_analyzer ''n1'' True, unit_analyzer ''n2'' False, unit_analyzer ''n3'' False,
            unit_analyzer ''n4'' False] = [unit_analyzer ''n1'' True] \<and>
   total_original exact (originalWeights (NewLoadBalancer
            [unit_analyzer ''n1'' True, unit_analyzer ''n2'' True, unit_analyzer ''n3'' True,
             unit_analyzer ''n4'' True]))
     [unit_analyzer ''n1'' True, unit_analyzer ''n2'' False, unit_analyzer ''n3'' False,
      unit_analyzer ''n4'' False] = 1 \<and>
   fst (SelectAnalyzer exact
          [unit_analyzer ''n1'' True, unit_analyzer ''n2'' False, unit_analyzer ''n3'' False,
           unit_analyzer ''n4'' False]
          (snd (SelectAnalyzer exact
            [unit_analyzer ''n1'' True, unit_analyzer ''n2'' True, unit_analyzer ''n3'' True,
             unit_analyzer ''n4'' True]
            (NewLoadBalancer
              [unit_analyzer ''n1'' True, unit_analyzer ''n2'' True, unit_analyzer ''n3'' True,
               unit_analyzer ''n4'' True])))) = None"
  by (simp add: SelectAnalyzer_def NewLoadBalancer_def healthy_def total_original_def
      weight_of_def a1_def a2_def unit_analyzer_def Let_def exact_def)

text \<open>
  Claim C4, amended. Let \<open>H\<close> be the healthy analyzers in the order the map iteration yields
  them, \<open>W\<close> the sum of their original weights as the first loop accumulates it, and \<open>cur\<close>
  the current weights after the second loop has added, for each analyzer of \<open>H\<close> in turn,
  its original weight to its current weight; every addition and subtraction is a
  \<open>float64\<close> one, whatever its rounding. If \<open>H\<close> is empty or \<open>W\<close> is zero, \<open>SelectAnalyzer\<close>
  returns no analyzer and changes nothing. Otherwise the current weights become \<open>cur\<close>,
  and: if no member of \<open>H\<close> has an updated weight above -1, no analyzer is returned; if
  some member has, the analyzer returned is a member of \<open>H\<close> with the maximal updated
  weight, namely the first such in iteration order (every earlier member is strictly
  below it, every later one at most equal), and \<open>W\<close> is subtracted from its current
  weight. When the ids in \<open>H\<close> are distinct, \<open>cur\<close> differs from the weights before the call
  by the original weight added, once, to the current weight of each member of \<open>H\<close>.
\<close>

theorem SelectAnalyzer_spec:
  fixes rnd :: "real \<Rightarrow> real" and analyzers :: "Analyzer list" and lb :: WeightedLoadBalancer
  defines "H \<equiv> healthy analyzers"
    and "W \<equiv> total_original rnd (originalWeights lb) analyzers"
    and "cur \<equiv> add_original rnd (originalWeights lb) (healthy analyzers) (currentWeights lb)"
  shows "(H = [] \<or> W = 0 \<longrightarrow> SelectAnalyzer rnd analyzers lb = (None, lb)) \<and>
    (H \<noteq> [] \<and> W \<noteq> 0 \<and> (\<forall>a \<in> set H. weight_of cur (Analyzer.ID a) \<le> - 1) \<longrightarrow>
       SelectAnalyzer rnd analyzers lb = (None, lb\<lparr>currentWeights := cur\<rparr>)) \<and>
    (H \<noteq> [] \<and> W \<noteq> 0 \<and> (\<exists>a \<in> set H. weight_of cur (Analyzer.ID a) > - 1) \<longrightarrow>
       (\<exists>pre j post. H = pre @ j # post \<and>
          (\<forall>a \<in> set pre. weight_of cur (Analyzer.ID a) < weight_of cur (Analyzer.ID j)) \<and>
          (\<forall>a \<in> set post. weight_of cur (Analyzer.ID a) \<le> weight_of cur (Analyzer.ID j)) \<and>
          SelectAnalyzer rnd analyzers lb =
            (Some j,
             lb\<lparr>currentWeights :=
                  cur(Analyzer.ID j \<mapsto> rnd (weight_of cur (Analyzer.ID j) - W))\<rparr>))) \<and>
    (distinct (map Analyzer.ID H) \<longrightarrow>
       (\<forall>k. weight_of cur k =
          (if k \<in> Analyzer.ID ` set H
           then rnd (weight_of (currentWeights lb) k + weight_of (originalWeights lb) k)
           else weight_of (currentWeights lb) k)))"
proof (intro conjI impI)
  assume "H = [] \<or> W = 0"
  then show "SelectAnalyzer rnd analyzers lb = (None, lb)"
    unfolding H_def W_def by (rule SelectAnalyzer_none)
next
  assume a: "H \<noteq> [] \<and> W \<noteq> 0 \<and> (\<forall>a \<in> set H. weight_of cur (Analyzer.ID a) \<le> - 1)"
  then have n: "find_max cur H None (- 1) = None"
    by (simp add: find_max_None)
  from a have "healthy analyzers \<noteq> []" "total_original rnd (originalWeights lb) analyzers \<noteq> 0"
    by (simp_all add: H_def W_def)
  from SelectAnalyzer_some[OF this] n
  show "SelectAnalyzer rnd analyzers lb = (None, lb\<lparr>currentWeights := cur\<rparr>)"
    by (simp add: H_def W_def cur_def Let_def)
next
  assume a: "H \<noteq> [] \<and> W \<noteq> 0 \<and> (\<exists>a \<in> set H. weight_of cur (Analyzer.ID a) > - 1)"
  then have "find_max cur H None (- 1) \<noteq> None"
    by (auto simp: find_max_None not_le)
  then obtain j where j: "find_max cur H None (- 1) = Some j" by auto
  from find_max_Some[OF j] obtain pre post where p: "H = pre @ j # post"
      "\<forall>a \<in> set pre. weight_of cur (Analyzer.ID a) < weight_of cur (Analyzer.ID j)"
      "\<forall>a \<in> set post. weight_of cur (Analyzer.ID a) \<le> weight_of cur (Analyzer.ID j)"
    by auto
  from a have "healthy analyzers \<noteq> []" "total_original rnd (originalWeights lb) analyzers \<noteq> 0"
    by (simp_all add: H_def W_def)
  from SelectAnalyzer_some[OF this] j
  have "SelectAnalyzer rnd analyzers lb =
      (Some j,
       lb\<lparr>currentWeights := cur(Analyzer.ID j \<mapsto> rnd (weight_of cur (Analyzer.ID j) - W))\<rparr>)"
    by (simp add: H_def W_def cur_def Let_def)
  with p show "\<exists>pre j post. H = pre @ j # post \<and>
          (\<forall>a \<in> set pre. weight_of cur (Analyzer.ID a) < weight_of cur (Analyzer.ID j)) \<and>
          (\<forall>a \<in> set post. weight_of cur (Analyzer.ID a) \<le> weight_of cur (Analyzer.ID j)) \<and>
          SelectAnalyzer rnd analyzers lb =
            (Some j,
             lb\<lparr>currentWeights :=
                  cur(Analyzer.ID j \<mapsto> rnd (weight_of cur (Analyzer.ID j) - W))\<rparr>)"
    by blast
next
  assume "distinct (map Analyzer.ID H)"
  then show "\<forall>k. weight_of cur k =
          (if k \<in> Analyzer.ID ` set H
           then rnd (weight_of (currentWeights lb) k + weight_of (originalWeights lb) k)
           else weight_of (currentWeights lb) k)"
    unfolding H_def cur_def by (simp add: add_original_distinct)
qed

theorem SelectAnalyzer_spec_witness:
  "SelectAnalyzer exact [a1\<lparr>IsHealthy := False\<rparr>] (NewLoadBalancer [a1]) =
     (None, NewLoadBalancer [a1]) \<and>
   SelectAnalyzer exact [unit_analyzer ''n1'' True]
     \<lparr>currentWeights = [''n1'' \<mapsto> - 2], originalWeights = [''n1'' \<mapsto> 1]\<rparr> =
     (None, \<lparr>currentWeights = [''n1'' \<mapsto> - 1], originalWeights = [''n1'' \<mapsto> 1]\<rparr>) \<and>
   fst (SelectAnalyzer exact [a1, a2] (NewLoadBalancer [a1, a2])) = Some a1 \<and>
   weight_of (currentWeights (snd (SelectAnalyzer exact [a1, a2] (NewLoadBalancer [a1, a2]))))
     ''analyzer-a1'' = 0 \<and>
   weight_of (currentWeights (snd (SelectAnalyzer exact [a1, a2] (NewLoadBalancer [a1, a2]))))
     ''analyzer-a2'' = 1"
  using SelectAnalyzer_spec[of "[a1\<lparr>IsHealthy := False\<rparr>]" exact "NewLoadBalancer [a1]"]
    SelectAnalyzer_spec[of "[unit_analyzer ''n1'' True]" exact
      "\<lparr>currentWeights = [''n1'' \<mapsto> - 2], originalWeights = [''n1'' \<mapsto> 1]\<rparr>"]
    SelectAnalyzer_spec[of "[a1, a2]" exact "NewLoadBalancer [a1, a2]"]
  by (simp add: SelectAnalyzer_def NewLoadBalancer_def healthy_def total_original_def
      weight_of_def a1_def a2_def unit_analyzer_def Let_def exact_def)

lemma foldl_add_sum_list:
  fixes f :: "'a \<Rightarrow> real"
  shows "foldl (\<lambda>t a. t + f a) t xs = t + sum_list (map f xs)"
  by (induction xs arbitrary: t) (simp_all add: add.assoc)

lemma sum_list_update_one:
  fixes f g :: "'a \<Rightarrow> real"
  assumes "xs = pre @ j # post"
    and "\<forall>a \<in> set pre \<union> set post. g a = f a"
  shows "sum_list (map g xs) = sum_list (map f xs) + (g j - f j)"
proof -
  have "sum_list (map g pre) = sum_list (map f pre)"
    by (rule arg_cong[where f = sum_list], rule map_cong) (use assms(2) in auto)
  moreover have "sum_list (map g post) = sum_list (map f post)"
    by (rule arg_cong[where f = sum_list], rule map_cong) (use assms(2) in auto)
  ultimately show ?thesis by (simp add: assms(1))
qed

text \<open>
  With no rounding at all (\<open>rnd\<close> the identity, exact arithmetic), a selection that returns
  an analyzer leaves the sum of the current weights of the healthy analyzers as it was,
  when their ids are distinct: the update adds the total of the original weights and the
  selection takes it off again. The proof reorders sums. It says nothing of the source,
  whose additions round: there the two sums can differ in the last bits.
\<close>

lemma SelectAnalyzer_conserves:
  assumes sel: "fst (SelectAnalyzer (\<lambda>x. x) analyzers lb) = Some j"
    and dist: "distinct (map Analyzer.ID (healthy analyzers))"
  shows "sum_list (map (\<lambda>a. weight_of (currentWeights (snd (SelectAnalyzer (\<lambda>x. x) analyzers lb)))
                              (Analyzer.ID a)) (healthy analyzers)) =
         sum_list (map (\<lambda>a. weight_of (currentWeights lb) (Analyzer.ID a)) (healthy analyzers))"
proof -
  let ?H = "healthy analyzers"
  let ?W = "total_original (\<lambda>x. x) (originalWeights lb) analyzers"
  let ?cur = "add_original (\<lambda>x. x) (originalWeights lb) ?H (currentWeights lb)"
  have h: "?H \<noteq> []" and w: "?W \<noteq> 0"
    using sel SelectAnalyzer_none[of analyzers "\<lambda>x. x" lb] by auto
  note eq = SelectAnalyzer_some[OF h w]
  from sel eq have j: "find_max ?cur ?H None (- 1) = Some j"
    by (auto simp: Let_def split: option.splits)
  with eq have res: "currentWeights (snd (SelectAnalyzer (\<lambda>x. x) analyzers lb)) =
      ?cur(Analyzer.ID j \<mapsto> weight_of ?cur (Analyzer.ID j) - ?W)"
    by (simp add: Let_def)
  from find_max_Some[OF j] obtain pre post where p: "?H = pre @ j # post" by auto
  with dist have "Analyzer.ID j \<notin> Analyzer.ID ` set pre" "Analyzer.ID j \<notin> Analyzer.ID ` set post"
    by auto
  then have other: "\<forall>a \<in> set pre \<union> set post. Analyzer.ID a \<noteq> Analyzer.ID j"
    by (metis Un_iff imageI)
  have "sum_list (map (\<lambda>a. weight_of (?cur(Analyzer.ID j \<mapsto> weight_of ?cur (Analyzer.ID j) - ?W))
                              (Analyzer.ID a)) ?H) =
        sum_list (map (\<lambda>a. weight_of ?cur (Analyzer.ID a)) ?H) +
          (weight_of (?cur(Analyzer.ID j \<mapsto> weight_of ?cur (Analyzer.ID j) - ?W)) (Analyzer.ID j)
             - weight_of ?cur (Analyzer.ID j))"
    by (rule sum_list_update_one[OF p]) (use other in \<open>auto simp: weight_of_def\<close>)
  also have "\<dots> = sum_list (map (\<lambda>a. weight_of ?cur (Analyzer.ID a)) ?H) - ?W"
    by (simp add: weight_of_def)
  also have "map (\<lambda>a. weight_of ?cur (Analyzer.ID a)) ?H =
      map (\<lambda>a. weight_of (currentWeights lb) (Analyzer.ID a)
                 + weight_of (originalWeights lb) (Analyzer.ID a)) ?H"
    by (rule map_cong) (simp_all add: add_original_distinct[OF dist])
  also have "sum_list \<dots> =
      sum_list (map (\<lambda>a. weight_of (currentWeights lb) (Analyzer.ID a)) ?H) + ?W"
    by (simp add: sum_list_addf total_original_def foldl_add_sum_list)
  finally show ?thesis unfolding res by (simp only: add_diff_cancel_right')
qed

end
